theory Spec2Isabelle
  imports Main "HOL-Library.Word"
begin

section \<open>Event store and event bus of eventhorizon\<close>

text \<open>
  The store of \<^verbatim>\<open>mongodb.go\<close> and the bus of the Redis source file are embedded as HOL
  functions. Everything outside the two files is an explicit argument:
  \<^item> the \<^verbatim>\<open>events\<close> collection is a list of documents, passed in and returned;
  \<^item> what the database driver, the clock and the Redis connection answer is read from
    an environment argument, so that every failure the code checks for can happen;
  \<^item> the BSON codec is a pair of functions;
  \<^item> handlers are opaque: a call of \<^verbatim>\<open>HandleEvent\<close> is an entry of the returned list of
    effects.
  One caller runs at a time, and handlers do not write to the collection.
\<close>

subsection \<open>Values of the Go program\<close>

type_synonym byte = "8 word"

text \<open>A \<^verbatim>\<open>[]byte\<close>; the nil slice is the empty list.\<close>

type_synonym bytes = "byte list"

text \<open>
  The error values declared in \<^verbatim>\<open>mongodb.go\<close>, and \<open>External\<close> for an error made by the
  driver, the codec or the transport.
\<close>

text \<open>
  Modelled from the spec: \<^verbatim>\<open>ErrNoEventsToAppend\<close> and \<^verbatim>\<open>ErrHandlerAlreadySet\<close> are declared
  outside the two source files; they are the errors the spec calls EmptyBatch and
  AlreadyRegistered.
\<close>

datatype error =
    ErrCouldNotDialDB
  | ErrNoDBSession
  | ErrCouldNotClearDB
  | ErrEventNotRegistered
  | ErrModelNotSet
  | ErrCouldNotMarshalEvent
  | ErrCouldNotUnmarshalEvent
  | ErrCouldNotLoadAggregate
  | ErrCouldNotSaveAggregate
  | ErrInvalidEvent
  | ErrNoEventsToAppend
  | ErrHandlerAlreadySet
  | External string

text \<open>
  Modelled from the spec: the \<^verbatim>\<open>Event\<close> interface and the \<^verbatim>\<open>UUID\<close> type are declared
  outside the two source files. An event is identified by its \<^verbatim>\<open>EventType\<close> tag and the
  id of the entity that owns it, and carries type-specific payload fields; the id is kept
  in its string form, which is all the store uses (\<^verbatim>\<open>AggregateID().String()\<close>).
\<close>

record 'p Event =
  AggregateID :: string
  EventType :: string
  Payload :: 'p

text \<open>
  A value of interface type \<^verbatim>\<open>Event\<close> that may be nil, as a factory's result may be:
  \<open>None\<close> is nil.
\<close>

type_synonym 'p iface = "'p Event option"

text \<open>\<^verbatim>\<open>bson.Raw{Kind, Data}\<close>.\<close>

record Raw =
  Kind :: byte
  Data :: bytes

text \<open>
  The two codec functions: \<^verbatim>\<open>bson.Marshal(event)\<close>, and \<^verbatim>\<open>raw.Unmarshal(event)\<close>, which
  fills the value the factory made and is given here as the value found there afterwards.
\<close>

record 'p codec =
  Marshal :: "'p Event \<Rightarrow> error + bytes"
  Unmarshal :: "Raw \<Rightarrow> 'p iface \<Rightarrow> error + 'p iface"

text \<open>
  The two results of \<^verbatim>\<open>bson.Marshal\<close> as Go returns them: the bytes and a nil error, or
  the nil slice and the error.
\<close>

definition bson_Marshal :: "'p codec \<Rightarrow> 'p Event \<Rightarrow> bytes \<times> error option" where
  "bson_Marshal bson event =
     (case Marshal bson event of Inl err \<Rightarrow> ([], Some err) | Inr data \<Rightarrow> (data, None))"

text \<open>
  Go's \<^verbatim>\<open>int\<close> on a 64-bit platform: the sum computed by the program is the mathematical
  one reduced to the signed 64-bit range.
\<close>

definition go_int :: "int \<Rightarrow> int" where
  "go_int x = (x + 2 ^ 63) mod 2 ^ 64 - 2 ^ 63"

subsection \<open>Stored documents\<close>

text \<open>
  \<^verbatim>\<open>mongoEventRecord\<close> as it is stored; its field \<^verbatim>\<open>Event\<close> is tagged \<^verbatim>\<open>bson:"-"\<close> and never
  reaches the collection. The record's version is \<open>RecordVersion\<close> here, the aggregate's
  is \<open>Version\<close>.
\<close>

record mongoEventRecord =
  Type :: string
  RecordVersion :: int
  Timestamp :: nat
  RecordData :: Raw

record mongoAggregateRecord =
  ID :: string
  Version :: int
  Events :: "mongoEventRecord list"

type_synonym collection = "mongoAggregateRecord list"

subsection \<open>The operations of the database driver used by the store\<close>

text \<open>\<^verbatim>\<open>C("events").FindId(id)\<close>: the documents whose \<^verbatim>\<open>_id\<close> is \<open>aid\<close>.\<close>

definition FindId :: "collection \<Rightarrow> string \<Rightarrow> mongoAggregateRecord list" where
  "FindId c aid = filter (\<lambda>d. ID d = aid) c"

text \<open>
  \<^verbatim>\<open>Select(bson.M{"version": 1})\<close>: only \<^verbatim>\<open>_id\<close> and \<^verbatim>\<open>version\<close> are returned, the events
  stay unset.
\<close>

definition Select_version :: "mongoAggregateRecord list \<Rightarrow> mongoAggregateRecord list" where
  "Select_version q = map (\<lambda>d. d\<lparr>Events := []\<rparr>) q"

definition Limit :: "nat \<Rightarrow> mongoAggregateRecord list \<Rightarrow> mongoAggregateRecord list" where
  "Limit n q = take n q"

text \<open>
  \<^verbatim>\<open>All(&result)\<close> (\<open>All_docs\<close>, as \<open>All\<close> is taken): the driver's error, if it has one, or
  the documents of the query.
\<close>

definition All_docs :: "error option \<Rightarrow> mongoAggregateRecord list \<Rightarrow> error + mongoAggregateRecord list" where
  "All_docs fault q = (case fault of Some err \<Rightarrow> Inl err | None \<Rightarrow> Inr q)"

text \<open>
  \<^verbatim>\<open>Insert(doc)\<close>: fails with the driver's error, or when a document with the same \<^verbatim>\<open>_id\<close>
  is there already; a failed write leaves the collection as it was.
\<close>

definition Insert :: "error option \<Rightarrow> collection \<Rightarrow> mongoAggregateRecord \<Rightarrow> error + collection" where
  "Insert fault c doc =
     (case fault of
        Some err \<Rightarrow> Inl err
      | None \<Rightarrow>
          if ID doc \<in> set (map ID c) then Inl (External ''duplicate key'')
          else Inr (c @ [doc]))"

text \<open>The first document that matches the selector is replaced by its update.\<close>

fun update_one ::
  "(mongoAggregateRecord \<Rightarrow> bool) \<Rightarrow> (mongoAggregateRecord \<Rightarrow> mongoAggregateRecord) \<Rightarrow>
   collection \<Rightarrow> collection option" where
  "update_one P f [] = None"
| "update_one P f (d # ds) =
     (if P d then Some (f d # ds)
      else (case update_one P f ds of None \<Rightarrow> None | Some ds' \<Rightarrow> Some (d # ds')))"

text \<open>
  \<^verbatim>\<open>Update({_id: id, version: v}, {$push: {events: r}, $inc: {version: 1}})\<close>: fails with
  the driver's error, or with not-found when no document has this id and this version.
\<close>

definition Update ::
  "error option \<Rightarrow> collection \<Rightarrow> string \<Rightarrow> int \<Rightarrow> mongoEventRecord \<Rightarrow> error + collection" where
  "Update fault c aid v r =
     (case fault of
        Some err \<Rightarrow> Inl err
      | None \<Rightarrow>
          (case update_one (\<lambda>d. ID d = aid \<and> Version d = v)
                  (\<lambda>d. d\<lparr>Events := Events d @ [r], Version := Version d + 1\<rparr>) c of
             None \<Rightarrow> Inl (External ''not found'')
           | Some c' \<Rightarrow> Inr c'))"

subsection \<open>MongoEventStore\<close>

text \<open>
  The store's own fields. \<open>eventBus\<close> is \<open>None\<close> for a nil bus; a factory is given by the
  value it returns. The session and the database name select the collection, which is an
  argument of \<open>Save\<close> and \<open>Load\<close>.
\<close>

record ('p, 'b) MongoEventStore =
  eventBus :: "'b option"
  factories :: "string \<rightharpoonup> 'p iface"

text \<open>
  What the outside answers while \<open>Save\<close> processes one event: the error of the probing
  query, the reading of the clock, and the driver's error of the write.
\<close>

record save_env =
  probe_err :: "error option"
  now :: nat
  write_err :: "error option"

text \<open>The body of the loop of \<open>Save\<close>, up to the write: the new collection, or the error returned.\<close>

definition save_event ::
  "'p codec \<Rightarrow> save_env \<Rightarrow> collection \<Rightarrow> 'p Event \<Rightarrow> error + collection" where
  "save_event bson env c event =
     (case All_docs (probe_err env) (Limit 1 (Select_version (FindId c (AggregateID event)))) of
        Inl err \<Rightarrow> Inl ErrCouldNotLoadAggregate
      | Inr existing \<Rightarrow>
          if length existing > 1 then Inl ErrCouldNotLoadAggregate
          else
            (case bson_Marshal bson event of
               (data, Some err) \<Rightarrow> Inl ErrCouldNotMarshalEvent
             | (data, None) \<Rightarrow>
                 (let r = \<lparr>Type = EventType event, RecordVersion = 1, Timestamp = now env,
                           RecordData = \<lparr>Kind = 3, Data = data\<rparr>\<rparr>
                  in case existing of
                       [] \<Rightarrow>
                         (let aggregate = \<lparr>ID = AggregateID event, Version = 1, Events = [r]\<rparr>
                          in case Insert (write_err env) c aggregate of
                               Inl err \<Rightarrow> Inl ErrCouldNotSaveAggregate
                             | Inr c' \<Rightarrow> Inr c')
                     | existing0 # _ \<Rightarrow>
                         (let r = r\<lparr>RecordVersion := go_int (Version existing0 + 1)\<rparr>
                          in case Update (write_err env) c (AggregateID event) (Version existing0) r of
                               Inl err \<Rightarrow> Inl ErrCouldNotSaveAggregate
                             | Inr c' \<Rightarrow> Inr c'))))"

text \<open>
  The loop of \<open>Save\<close> from the event at position \<open>k\<close> of the batch on. It returns the error
  (\<open>None\<close> for nil), the collection it leaves, and the events handed to
  \<^verbatim>\<open>eventBus.PublishEvent\<close>, in the order of the calls.
\<close>

fun save_events ::
  "'p codec \<Rightarrow> ('p, 'b) MongoEventStore \<Rightarrow> (nat \<Rightarrow> save_env) \<Rightarrow> nat \<Rightarrow> collection \<Rightarrow>
   'p Event list \<Rightarrow> error option \<times> collection \<times> 'p Event list" where
  "save_events bson s env k c [] = (None, c, [])"
| "save_events bson s env k c (event # rest) =
     (case save_event bson (env k) c event of
        Inl err \<Rightarrow> (Some err, c, [])
      | Inr c' \<Rightarrow>
          (case save_events bson s env (Suc k) c' rest of
             (res, c'', published) \<Rightarrow>
               (res, c'', (if eventBus s \<noteq> None then [event] else []) @ published)))"

definition Save ::
  "'p codec \<Rightarrow> ('p, 'b) MongoEventStore \<Rightarrow> (nat \<Rightarrow> save_env) \<Rightarrow> collection \<Rightarrow>
   'p Event list \<Rightarrow> error option \<times> collection \<times> 'p Event list" where
  "Save bson s env c events =
     (if length events = 0 then (Some ErrNoEventsToAppend, c, [])
      else save_events bson s env 0 c events)"

text \<open>
  The loop of \<open>Load\<close> over the records of the aggregate. The two assignments to \<^verbatim>\<open>record\<close>
  at its end change the decoded copy only, which \<open>Load\<close> drops.
\<close>

fun load_events ::
  "'p codec \<Rightarrow> ('p, 'b) MongoEventStore \<Rightarrow> mongoEventRecord list \<Rightarrow> error + 'p Event list" where
  "load_events bson s [] = Inr []"
| "load_events bson s (record # rest) =
     (case factories s (Type record) of
        None \<Rightarrow> Inl ErrEventNotRegistered
      | Some f \<Rightarrow>
          (case Unmarshal bson (RecordData record) f of
             Inl err \<Rightarrow> Inl ErrCouldNotUnmarshalEvent
           | Inr event \<Rightarrow>
               (case event of
                  None \<Rightarrow> Inl ErrInvalidEvent
                | Some ev \<Rightarrow>
                    (case load_events bson s rest of
                       Inl err \<Rightarrow> Inl err
                     | Inr evs \<Rightarrow> Inr (ev # evs)))))"

text \<open>\<open>Load\<close>; \<open>fault\<close> is the error of its query. Go's nil slice of events is \<open>[]\<close>.\<close>

definition Load ::
  "'p codec \<Rightarrow> ('p, 'b) MongoEventStore \<Rightarrow> error option \<Rightarrow> collection \<Rightarrow> string \<Rightarrow>
   error + 'p Event list" where
  "Load bson s fault c aid =
     (case All_docs fault (Limit 1 (FindId c aid)) of
        Inl err \<Rightarrow> Inl ErrCouldNotLoadAggregate
      | Inr aggregates \<Rightarrow>
          if length aggregates > 1 then Inl ErrCouldNotLoadAggregate
          else
            (case aggregates of
               [] \<Rightarrow> Inr []
             | aggregate # _ \<Rightarrow> load_events bson s (Events aggregate)))"

text \<open>\<open>RegisterEventType\<close> of the store: the error and the store afterwards.\<close>

definition RegisterEventType ::
  "('p, 'b) MongoEventStore \<Rightarrow> 'p Event \<Rightarrow> 'p iface \<Rightarrow> error option \<times> ('p, 'b) MongoEventStore" where
  "RegisterEventType s event factory =
     (if factories s (EventType event) \<noteq> None then (Some ErrHandlerAlreadySet, s)
      else (None, s\<lparr>factories := (factories s)(EventType event \<mapsto> factory)\<rparr>))"

subsection \<open>RedisEventBus\<close>

text \<open>
  Modelled from the spec: the \<^verbatim>\<open>EventHandler\<close> interface is declared outside the two
  source files; a handler is a capability with \<^verbatim>\<open>HandleEvent(Event)\<close>, known to the bus by
  its identity only.
\<close>

type_synonym EventHandler = nat

text \<open>
  What the bus does to the outside, in the order it does it: a call of a handler, a line
  written by \<^verbatim>\<open>log.Printf\<close> (its fixed text and the value printed), a call of \<^verbatim>\<open>conn.Do\<close>
  (the command, the channel, the payload), and the deferred \<^verbatim>\<open>conn.Close()\<close>.
\<close>

datatype 'p effect =
    HandleEvent EventHandler "'p iface"
  | Log string error
  | Do string string bytes
  | Close

text \<open>
  The fields of the bus. A set of handlers (\<^verbatim>\<open>map[EventHandler]bool\<close>) is the list of its
  members in the order in which \<^verbatim>\<open>range\<close> visits them; the pool and the connection are
  represented by what they answer. The factories of the bus are \<open>busFactories\<close>.
\<close>

record 'p RedisEventBus =
  eventHandlers :: "string \<rightharpoonup> EventHandler list"
  localHandlers :: "EventHandler list"
  globalHandlers :: "EventHandler list"
  prefix :: string
  busFactories :: "string \<rightharpoonup> 'p iface"

text \<open>
  One round of \<^verbatim>\<open>connectAndSubscribe\<close> as the constructor sees it: the connection from
  the pool has an error (the round is retried after ten seconds), or the pattern
  subscription fails, or it succeeds.
\<close>

datatype attempt = ConnFailed error | SubscribeFailed error | Subscribed

text \<open>
  What the constructor receives from \<^verbatim>\<open>ready\<close>: \<open>None\<close> as long as every round so far has
  failed to connect, \<open>Some None\<close> when the channel is closed after the subscription, the
  error sent on it otherwise.
\<close>

fun first_ready :: "attempt list \<Rightarrow> error option option" where
  "first_ready [] = None"
| "first_ready (ConnFailed err # rounds) = first_ready rounds"
| "first_ready (SubscribeFailed err # rounds) = Some (Some err)"
| "first_ready (Subscribed # rounds) = Some None"

text \<open>The constructor; \<open>None\<close> while it waits for \<^verbatim>\<open>ready\<close>.\<close>

definition NewRedisEventBusWithPool ::
  "string \<Rightarrow> attempt list \<Rightarrow> (error + 'p RedisEventBus) option" where
  "NewRedisEventBusWithPool appID rounds =
     (let b = \<lparr>eventHandlers = Map.empty, localHandlers = [], globalHandlers = [],
               prefix = appID @ '':events:'', busFactories = Map.empty\<rparr>
      in case first_ready rounds of
           None \<Rightarrow> None
         | Some (Some err) \<Rightarrow> Some (Inl err)
         | Some None \<Rightarrow> Some (Inr b))"

text \<open>\<open>RegisterEventType\<close> of the bus.\<close>

definition RegisterEventType_bus ::
  "'p RedisEventBus \<Rightarrow> 'p Event \<Rightarrow> 'p iface \<Rightarrow> error option \<times> 'p RedisEventBus" where
  "RegisterEventType_bus b event factory =
     (if busFactories b (EventType event) \<noteq> None then (Some ErrHandlerAlreadySet, b)
      else (None, b\<lparr>busFactories := (busFactories b)(EventType event \<mapsto> factory)\<rparr>))"

text \<open>
  What the Redis connection answers during one \<open>publishGlobal\<close>: \<^verbatim>\<open>conn.Err()\<close> after
  \<^verbatim>\<open>pool.Get()\<close>, and the error of \<^verbatim>\<open>conn.Do\<close>.
\<close>

record publish_env =
  conn_err :: "error option"
  do_err :: "error option"

definition publishGlobal ::
  "'p codec \<Rightarrow> 'p RedisEventBus \<Rightarrow> publish_env \<Rightarrow> 'p Event \<Rightarrow> 'p effect list" where
  "publishGlobal bson b env event =
     (case conn_err env of
        Some err \<Rightarrow> [Log ''error: event bus publish: '' err]
      | None \<Rightarrow> []) @
     (case bson_Marshal bson event of
        (data, err) \<Rightarrow>
          (case err of
             Some err \<Rightarrow> [Log ''error: event bus publish: '' ErrCouldNotMarshalEvent]
           | None \<Rightarrow> []) @
          [Do ''PUBLISH'' (prefix b @ EventType event) data] @
          (case do_err env of
             Some err \<Rightarrow> [Log ''error: event bus publish: '' err]
           | None \<Rightarrow> [])) @
     [Close]"

text \<open>\<open>PublishEvent\<close> has no result; it is given by its effects.\<close>

definition PublishEvent ::
  "'p codec \<Rightarrow> 'p RedisEventBus \<Rightarrow> publish_env \<Rightarrow> 'p Event \<Rightarrow> 'p effect list" where
  "PublishEvent bson b env event =
     (case eventHandlers b (EventType event) of
        Some handlers \<Rightarrow> map (\<lambda>handler. HandleEvent handler (Some event)) handlers
      | None \<Rightarrow> []) @
     map (\<lambda>handler. HandleEvent handler (Some event)) (localHandlers b) @
     publishGlobal bson b env event"

text \<open>\<^verbatim>\<open>strings.HasPrefix\<close> and \<^verbatim>\<open>strings.TrimPrefix\<close>.\<close>

definition HasPrefix :: "string \<Rightarrow> string \<Rightarrow> bool" where
  "HasPrefix s p = (length s \<ge> length p \<and> take (length p) s = p)"

definition TrimPrefix :: "string \<Rightarrow> string \<Rightarrow> string" where
  "TrimPrefix s p = (if HasPrefix s p then drop (length p) s else s)"

text \<open>
  A value returned by \<^verbatim>\<open>conn.Receive()\<close>: a \<^verbatim>\<open>redis.PMessage\<close> (pattern, channel, data), a
  \<^verbatim>\<open>redis.Subscription\<close> (kind, channel, count), an error, or a value of another type.
\<close>

datatype received =
    PMessage string string bytes
  | Subscription string string int
  | RecvError error
  | Other

text \<open>
  The receive loop, run on the values that \<^verbatim>\<open>Receive\<close> returns one after the other. It
  yields its effects and what it sends on \<^verbatim>\<open>done\<close> when it returns; \<open>None\<close> when the values
  are used up and the loop waits in \<^verbatim>\<open>Receive\<close>.
\<close>

fun receiveGlobal ::
  "'p codec \<Rightarrow> 'p RedisEventBus \<Rightarrow> received list \<Rightarrow> 'p effect list \<times> bool option" where
  "receiveGlobal bson b [] = ([], None)"
| "receiveGlobal bson b (PMessage pattern channel payload # ns) =
     (let eventType = TrimPrefix channel (prefix b);
          (effects, done) = receiveGlobal bson b ns
      in case busFactories b eventType of
           None \<Rightarrow> (Log ''error: event bus receive: '' ErrEventNotRegistered # effects, done)
         | Some f \<Rightarrow>
             (case Unmarshal bson \<lparr>Kind = 3, Data = payload\<rparr> f of
                Inl err \<Rightarrow>
                  (Log ''error: event bus receive: '' ErrCouldNotUnmarshalEvent # effects, done)
              | Inr event \<Rightarrow>
                  (map (\<lambda>handler. HandleEvent handler event) (globalHandlers b) @ effects, done)))"
| "receiveGlobal bson b (Subscription kind channel count # ns) =
     (if kind = ''psubscribe'' then receiveGlobal bson b ns
      else if kind = ''punsubscribe'' then
        (if count = 0 then ([], Some True) else receiveGlobal bson b ns)
      else receiveGlobal bson b ns)"
| "receiveGlobal bson b (RecvError err # ns) =
     ([Log ''error: event bus receive: '' err], Some False)"
| "receiveGlobal bson b (Other # ns) = receiveGlobal bson b ns"

subsection \<open>Predicates used in the statements\<close>

text \<open>The record that \<open>Save\<close> builds for an event, with the clock reading, payload and version given.\<close>

definition stored :: "'p Event \<Rightarrow> nat \<Rightarrow> bytes \<Rightarrow> int \<Rightarrow> mongoEventRecord" where
  "stored event t payload v =
     \<lparr>Type = EventType event, RecordVersion = v, Timestamp = t,
      RecordData = \<lparr>Kind = 3, Data = payload\<rparr>\<rparr>"

text \<open>
  The invariant of a stream: its version is the number of its records, and the records
  carry the versions 1, 2, ... in the order of the sequence.
\<close>

definition stream_ok :: "mongoAggregateRecord \<Rightarrow> bool" where
  "stream_ok a \<longleftrightarrow>
     Version a = int (length (Events a)) \<and>
     map RecordVersion (Events a) = map int [1..<Suc (length (Events a))]"

text \<open>
  There is room for \<open>n\<close> more records: no stream, and no batch of \<open>n\<close> events, reaches
  \<open>2 ^ 63\<close> entries, the bound of a length in Go.
\<close>

definition room :: "collection \<Rightarrow> nat \<Rightarrow> bool" where
  "room c n \<longleftrightarrow> int n < 2 ^ 63 \<and> (\<forall>a \<in> set c. int (length (Events a)) + int n < 2 ^ 63)"

text \<open>
  The store can decode what the codec makes of the event: the event's type has a factory,
  and unmarshalling the payload into the factory's value gives the event back.
\<close>

definition decodes_back :: "'p codec \<Rightarrow> ('p, 'b) MongoEventStore \<Rightarrow> 'p Event \<Rightarrow> bool" where
  "decodes_back bson s event =
     (case Marshal bson event of
        Inl err \<Rightarrow> True
      | Inr payload \<Rightarrow>
          (case factories s (EventType event) of
             None \<Rightarrow> False
           | Some f \<Rightarrow> Unmarshal bson \<lparr>Kind = 3, Data = payload\<rparr> f = Inr (Some event)))"

text \<open>The record holds the event: its type tag and its encoding as a BSON document.\<close>

definition record_of :: "'p codec \<Rightarrow> mongoEventRecord \<Rightarrow> 'p Event \<Rightarrow> bool" where
  "record_of bson r event \<longleftrightarrow>
     Type r = EventType event \<and> Kind (RecordData r) = 3 \<and>
     Marshal bson event = Inr (Data (RecordData r))"

text \<open>The effect is a line of the log.\<close>

definition is_log :: "'p effect \<Rightarrow> bool" where
  "is_log x = (case x of Log line err \<Rightarrow> True | _ \<Rightarrow> False)"

text \<open>
  The received values on which the loop returns: the notification of an unsubscription
  that leaves no subscription, and an error.
\<close>

definition exits :: "received \<Rightarrow> bool" where
  "exits n =
     (case n of
        Subscription kind channel count \<Rightarrow> kind = ''punsubscribe'' \<and> count = 0
      | RecvError err \<Rightarrow> True
      | _ \<Rightarrow> False)"

subsection \<open>A bank account as an instance\<close>

text \<open>
  Deposits into the account \<open>A1\<close>, a codec that writes an amount below 256 as one byte,
  a store and a bus with the type \<open>Deposited\<close> registered, and two environments: one
  without failures, one whose probing query fails for the second event of a batch.
\<close>

definition deposited :: "int \<Rightarrow> int Event" where
  "deposited amount = \<lparr>AggregateID = ''A1'', EventType = ''Deposited'', Payload = amount\<rparr>"

definition example_codec :: "int codec" where
  "example_codec =
     \<lparr>Marshal = (\<lambda>e. if 0 \<le> Payload e \<and> Payload e < 256 \<and> AggregateID e = ''A1''
                      then Inr [word_of_int (Payload e)]
                      else Inl (External ''cannot marshal'')),
      Unmarshal = (\<lambda>raw target.
         case (target, Data raw) of
           (Some z, [x]) \<Rightarrow> Inr (Some (z\<lparr>AggregateID := ''A1'', Payload := uint x\<rparr>))
         | _ \<Rightarrow> Inl (External ''cannot unmarshal''))\<rparr>"

definition example_store :: "(int, unit) MongoEventStore" where
  "example_store =
     \<lparr>eventBus = Some (),
      factories = [''Deposited'' \<mapsto> Some \<lparr>AggregateID = [], EventType = ''Deposited'', Payload = 0\<rparr>]\<rparr>"

definition bare_store :: "(int, unit) MongoEventStore" where
  "bare_store = \<lparr>eventBus = None, factories = Map.empty\<rparr>"

definition example_bus :: "int RedisEventBus" where
  "example_bus =
     \<lparr>eventHandlers = [''Deposited'' \<mapsto> [1, 2]], localHandlers = [3], globalHandlers = [4, 5],
      prefix = ''bank:events:'',
      busFactories = [''Deposited'' \<mapsto> Some \<lparr>AggregateID = [], EventType = ''Deposited'', Payload = 0\<rparr>]\<rparr>"

definition quiet :: "nat \<Rightarrow> save_env" where
  "quiet k = \<lparr>probe_err = None, now = 100 + k, write_err = None\<rparr>"

definition flaky :: "nat \<Rightarrow> save_env" where
  "flaky k = \<lparr>probe_err = (if k = 1 then Some (External ''timeout'') else None), now = 100 + k,
              write_err = None\<rparr>"

definition other_stream :: mongoAggregateRecord where
  "other_stream = \<lparr>ID = ''B2'', Version = 1, Events = [stored (deposited 1) 99 [1] 1]\<rparr>"

definition account_stream :: mongoAggregateRecord where
  "account_stream =
     \<lparr>ID = ''A1'', Version = 2,
      Events = [stored (deposited 10) 100 [10] 1, stored (deposited 5) 101 [5] 2]\<rparr>"

section \<open>Properties\<close>

subsection \<open>Auxiliary facts\<close>

lemma go_int_id: "- (2 ^ 63) \<le> x \<Longrightarrow> x < 2 ^ 63 \<Longrightarrow> go_int x = x"
  by (simp add: go_int_def)

lemma TrimPrefix_append: "TrimPrefix (p @ t) p = t"
  by (simp add: TrimPrefix_def HasPrefix_def)

lemma Limit_one_length: "length (Limit 1 q) \<le> 1"
  by (simp add: Limit_def)

lemma update_one_first:
  "\<forall>u \<in> set us. \<not> P u \<Longrightarrow> P a \<Longrightarrow> update_one P f (us @ a # vs) = Some (us @ f a # vs)"
  by (induction us) auto

lemma FindId_Nil: "FindId c aid = [] \<longleftrightarrow> aid \<notin> ID ` set c"
  by (auto simp: FindId_def filter_empty_conv)

lemma FindId_Cons:
  "FindId c aid = a # q \<Longrightarrow>
     \<exists>us vs. c = us @ a # vs \<and> (\<forall>u \<in> set us. ID u \<noteq> aid) \<and> ID a = aid"
  by (auto simp: FindId_def filter_eq_Cons_iff)

lemma load_events_error:
  "load_events bson s rs = Inl err \<Longrightarrow>
     err \<in> {ErrEventNotRegistered, ErrCouldNotUnmarshalEvent, ErrInvalidEvent}"
  by (induction rs arbitrary: err) (auto split: option.splits sum.splits)

lemma save_event_LoadError:
  "save_event bson env c event = Inl ErrCouldNotLoadAggregate \<Longrightarrow> probe_err env \<noteq> None"
  by (auto simp: save_event_def All_docs_def Limit_def bson_Marshal_def Let_def
      split: option.splits sum.splits list.splits if_splits)

lemma save_events_LoadError:
  "fst (save_events bson s env k c events) = Some ErrCouldNotLoadAggregate \<Longrightarrow>
     \<exists>i < length events. probe_err (env (k + i)) \<noteq> None"
proof (induction events arbitrary: k c)
  case Nil
  then show ?case by simp
next
  case (Cons event rest)
  show ?case
  proof (cases "save_event bson (env k) c event")
    case (Inl err)
    with Cons.prems have "err = ErrCouldNotLoadAggregate" by simp
    with Inl have "probe_err (env (k + 0)) \<noteq> None"
      using save_event_LoadError by fastforce
    then show ?thesis by (intro exI [of _ 0]) simp
  next
    case (Inr c')
    with Cons.prems
    have "fst (save_events bson s env (Suc k) c' rest) = Some ErrCouldNotLoadAggregate"
      by (simp split: prod.splits)
    from Cons.IH [OF this] obtain i
      where "i < length rest" "probe_err (env (Suc k + i)) \<noteq> None"
      by blast
    then show ?thesis by (intro exI [of _ "Suc i"]) simp
  qed
qed

subsection \<open>Registering an event type twice\<close>

text \<open>
  C4: when the tag of the event already has a factory, \<open>RegisterEventType\<close> returns
  \<open>ErrHandlerAlreadySet\<close> (the AlreadyRegistered error) and the registry is the one before
  the call, so the tag is still mapped to the first factory, and \<open>Load\<close> and the receive
  loop decode as they did before. This holds for the store and for the bus.
\<close>

theorem RegisterEventType_twice:
  "(factories s (EventType event) = Some f \<longrightarrow>
      RegisterEventType s event g = (Some ErrHandlerAlreadySet, s) \<and>
      factories (snd (RegisterEventType s event g)) (EventType event) = Some f \<and>
      Load bson (snd (RegisterEventType s event g)) fault c aid = Load bson s fault c aid) \<and>
   (busFactories b (EventType event) = Some f \<longrightarrow>
      RegisterEventType_bus b event g = (Some ErrHandlerAlreadySet, b) \<and>
      busFactories (snd (RegisterEventType_bus b event g)) (EventType event) = Some f \<and>
      receiveGlobal bson (snd (RegisterEventType_bus b event g)) ns = receiveGlobal bson b ns)"
  by (simp add: RegisterEventType_def RegisterEventType_bus_def)

theorem RegisterEventType_twice_witness:
  "factories example_store (EventType (deposited 10)) =
     Some (Some \<lparr>AggregateID = [], EventType = ''Deposited'', Payload = 0\<rparr>) \<and>
   busFactories example_bus (EventType (deposited 10)) =
     Some (Some \<lparr>AggregateID = [], EventType = ''Deposited'', Payload = 0\<rparr>) \<and>
   RegisterEventType example_store (deposited 10) None = (Some ErrHandlerAlreadySet, example_store) \<and>
   RegisterEventType_bus example_bus (deposited 10) None = (Some ErrHandlerAlreadySet, example_bus)"
  using RegisterEventType_twice [of example_store "deposited 10"
      "Some \<lparr>AggregateID = [], EventType = ''Deposited'', Payload = 0\<rparr>" None example_codec None "[]"
      "''A1''" example_bus "[]"]
  by (simp add: example_store_def example_bus_def deposited_def)

subsection \<open>Loading\<close>

text \<open>
  C6: when the collection holds no stream for the id, \<open>Load\<close>, its query answered, returns
  the empty sequence of events and no error.
\<close>

theorem Load_no_stream:
  "aid \<notin> ID ` set c \<Longrightarrow> Load bson s None c aid = Inr []"
proof -
  assume "aid \<notin> ID ` set c"
  then have "FindId c aid = []" by (simp add: FindId_Nil)
  then show ?thesis by (simp add: Load_def All_docs_def Limit_def)
qed

theorem Load_no_stream_witness:
  "''A1'' \<notin> ID ` set [other_stream] \<and>
   Load example_codec example_store None [other_stream] ''A1'' = Inr []"
  using Load_no_stream [of "''A1''" "[other_stream]" example_codec example_store]
  by (simp add: other_stream_def)

text \<open>
  C5: the queries of \<open>Load\<close> and of the probe in \<open>Save\<close> are limited to one document, so
  the test for more than one document never holds; when \<open>Load\<close> or \<open>Save\<close> returns
  \<open>ErrCouldNotLoadAggregate\<close>, the query itself has returned an error (for \<open>Save\<close>, the probe
  of one of the events of the batch).
\<close>

theorem LoadError_only_from_query:
  "\<not> length (Limit 1 (FindId c aid)) > 1 \<and>
   \<not> length (Limit 1 (Select_version (FindId c aid))) > 1 \<and>
   (Load bson s fault c aid = Inl ErrCouldNotLoadAggregate \<longrightarrow> fault \<noteq> None) \<and>
   (fst (Save bson s env c events) = Some ErrCouldNotLoadAggregate \<longrightarrow>
      (\<exists>i < length events. probe_err (env i) \<noteq> None))"
proof (intro conjI impI)
  assume a: "Load bson s fault c aid = Inl ErrCouldNotLoadAggregate"
  show "fault \<noteq> None"
  proof
    assume "fault = None"
    with a have "\<exists>rs. load_events bson s rs = Inl ErrCouldNotLoadAggregate"
      using Limit_one_length [of "FindId c aid"]
      by (auto simp: Load_def All_docs_def split: list.splits if_splits)
    then show False using load_events_error by fastforce
  qed
next
  assume "fst (Save bson s env c events) = Some ErrCouldNotLoadAggregate"
  then have "fst (save_events bson s env 0 c events) = Some ErrCouldNotLoadAggregate"
    by (simp add: Save_def split: if_splits)
  from save_events_LoadError [OF this] show "\<exists>i < length events. probe_err (env i) \<noteq> None"
    by simp
qed (simp_all add: Limit_def)

theorem LoadError_only_from_query_witness:
  "Load example_codec example_store (Some (External ''timeout'')) [other_stream] ''A1'' =
     Inl ErrCouldNotLoadAggregate \<and>
   Some (External ''timeout'') \<noteq> None \<and>
   fst (Save example_codec example_store flaky [other_stream] [deposited 10, deposited 5]) =
     Some ErrCouldNotLoadAggregate \<and>
   (\<exists>i < length [deposited 10, deposited 5]. probe_err (flaky i) \<noteq> None)"
  using LoadError_only_from_query [of "[other_stream]" "''A1''" example_codec example_store
      "Some (External ''timeout'')" flaky "[deposited 10, deposited 5]"]
  by (simp add: Load_def Save_def save_event_def All_docs_def Limit_def Select_version_def
      FindId_def bson_Marshal_def Insert_def Update_def example_codec_def other_stream_def
      flaky_def deposited_def)

subsection \<open>Publishing\<close>

text \<open>
  C7: \<open>PublishEvent\<close> calls the handlers registered for the type of the event, then the
  local handlers, and only then \<open>publishGlobal\<close> encodes the event and issues \<^verbatim>\<open>PUBLISH\<close> on
  the channel \<open>namespace:events:EventType\<close>. What precedes the command in \<open>publishGlobal\<close>
  are log lines; an error of the command is written to the log. \<open>PublishEvent\<close> has no
  result besides these effects, so no failure reaches its caller.
\<close>

theorem PublishEvent_local_then_remote:
  assumes "prefix b = namespace @ '':events:''"
  shows "\<exists>before after.
     PublishEvent bson b env event =
       map (\<lambda>h. HandleEvent h (Some event))
         (case eventHandlers b (EventType event) of Some hs \<Rightarrow> hs | None \<Rightarrow> []) @
       map (\<lambda>h. HandleEvent h (Some event)) (localHandlers b) @
       before @
       [Do ''PUBLISH'' (namespace @ '':events:'' @ EventType event) (fst (bson_Marshal bson event))] @
       after @ [Close] \<and>
     list_all is_log before \<and>
     after = (case do_err env of
                Some err \<Rightarrow> [Log ''error: event bus publish: '' err]
              | None \<Rightarrow> []) \<and>
     (\<forall>payload. Marshal bson event = Inr payload \<longrightarrow> fst (bson_Marshal bson event) = payload)"
proof -
  let ?before =
    "(case conn_err env of Some e \<Rightarrow> [Log ''error: event bus publish: '' e] | None \<Rightarrow> []) @
     (case snd (bson_Marshal bson event) of
        Some e \<Rightarrow> [Log ''error: event bus publish: '' ErrCouldNotMarshalEvent]
      | None \<Rightarrow> [])"
  have "list_all is_log ?before"
    by (simp add: is_log_def split: option.splits)
  moreover have "PublishEvent bson b env event =
       map (\<lambda>h. HandleEvent h (Some event))
         (case eventHandlers b (EventType event) of Some hs \<Rightarrow> hs | None \<Rightarrow> []) @
       map (\<lambda>h. HandleEvent h (Some event)) (localHandlers b) @
       ?before @
       [Do ''PUBLISH'' (namespace @ '':events:'' @ EventType event) (fst (bson_Marshal bson event))] @
       (case do_err env of Some err \<Rightarrow> [Log ''error: event bus publish: '' err] | None \<Rightarrow> []) @
       [Close]"
    using assms by (simp add: PublishEvent_def publishGlobal_def split: option.splits prod.splits)
  moreover have
    "\<forall>payload. Marshal bson event = Inr payload \<longrightarrow> fst (bson_Marshal bson event) = payload"
    by (simp add: bson_Marshal_def)
  ultimately show ?thesis by blast
qed

theorem PublishEvent_local_then_remote_witness:
  "prefix example_bus = ''bank'' @ '':events:'' \<and>
   (\<exists>before after.
      PublishEvent example_codec example_bus
          \<lparr>conn_err = None, do_err = Some (External ''connection closed'')\<rparr> (deposited 10) =
        [HandleEvent 1 (Some (deposited 10)), HandleEvent 2 (Some (deposited 10))] @
        [HandleEvent 3 (Some (deposited 10))] @
        before @ [Do ''PUBLISH'' ''bank:events:Deposited'' [10]] @ after @ [Close] \<and>
      list_all is_log before \<and>
      after = [Log ''error: event bus publish: '' (External ''connection closed'')])"
  using PublishEvent_local_then_remote [of example_bus "''bank''" example_codec
      "\<lparr>conn_err = None, do_err = Some (External ''connection closed'')\<rparr>" "deposited 10"]
  by (simp add: example_bus_def example_codec_def deposited_def bson_Marshal_def)

text \<open>
  C10: when the event cannot be marshalled, \<open>publishGlobal\<close> writes the error to the log and
  goes on: \<^verbatim>\<open>PUBLISH\<close> is issued on the channel of the event with the nil payload.
\<close>

theorem publishGlobal_marshal_failure:
  "Marshal bson event = Inl err \<Longrightarrow>
   publishGlobal bson b env event =
     (case conn_err env of Some e \<Rightarrow> [Log ''error: event bus publish: '' e] | None \<Rightarrow> []) @
     [Log ''error: event bus publish: '' ErrCouldNotMarshalEvent,
      Do ''PUBLISH'' (prefix b @ EventType event) []] @
     (case do_err env of Some e \<Rightarrow> [Log ''error: event bus publish: '' e] | None \<Rightarrow> []) @
     [Close]"
  by (simp add: publishGlobal_def bson_Marshal_def)

theorem publishGlobal_marshal_failure_witness:
  "Marshal example_codec (deposited 1000) = Inl (External ''cannot marshal'') \<and>
   publishGlobal example_codec example_bus \<lparr>conn_err = None, do_err = None\<rparr> (deposited 1000) =
     [Log ''error: event bus publish: '' ErrCouldNotMarshalEvent,
      Do ''PUBLISH'' ''bank:events:Deposited'' [], Close]"
  using publishGlobal_marshal_failure [of example_codec "deposited 1000"
      "External ''cannot marshal''" example_bus "\<lparr>conn_err = None, do_err = None\<rparr>"]
  by (simp add: example_codec_def example_bus_def deposited_def)

subsection \<open>Channel names\<close>

text \<open>
  C9: a bus made by the constructor for the application \<open>appID\<close> has the prefix
  \<open>appID:events:\<close>, and so has every bus that keeps this prefix. It publishes an event of
  type \<open>t\<close> on the channel \<open>appID:events:t\<close>, and \<open>TrimPrefix\<close>, by which the receive loop
  reads the type from the channel, gives \<open>t\<close> back: on a message of that channel the loop
  looks up the factory of \<open>t\<close>.
\<close>

theorem channel_round_trip:
  assumes "NewRedisEventBusWithPool appID rounds = Some (Inr b0)"
      and "prefix b = prefix b0"
  shows "prefix b = appID @ '':events:'' \<and>
         Do ''PUBLISH'' (appID @ '':events:'' @ EventType event) (fst (bson_Marshal bson event))
           \<in> set (publishGlobal bson b env event) \<and>
         TrimPrefix (appID @ '':events:'' @ EventType event) (prefix b) = EventType event \<and>
         receiveGlobal bson b (PMessage pattern (appID @ '':events:'' @ EventType event) payload # ns) =
           (case busFactories b (EventType event) of
              None \<Rightarrow>
                (Log ''error: event bus receive: '' ErrEventNotRegistered #
                   fst (receiveGlobal bson b ns), snd (receiveGlobal bson b ns))
            | Some f \<Rightarrow>
                (case Unmarshal bson \<lparr>Kind = 3, Data = payload\<rparr> f of
                   Inl err \<Rightarrow>
                     (Log ''error: event bus receive: '' ErrCouldNotUnmarshalEvent #
                        fst (receiveGlobal bson b ns), snd (receiveGlobal bson b ns))
                 | Inr received \<Rightarrow>
                     (map (\<lambda>handler. HandleEvent handler received) (globalHandlers b) @
                        fst (receiveGlobal bson b ns), snd (receiveGlobal bson b ns))))"
proof -
  from assms have p: "prefix b = appID @ '':events:''"
    by (auto simp: NewRedisEventBusWithPool_def Let_def split: option.splits)
  have t: "TrimPrefix (prefix b @ EventType event) (prefix b) = EventType event"
    by (rule TrimPrefix_append)
  have "Do ''PUBLISH'' (prefix b @ EventType event) (fst (bson_Marshal bson event))
           \<in> set (publishGlobal bson b env event)"
    by (cases "bson_Marshal bson event") (simp add: publishGlobal_def)
  moreover have
    "receiveGlobal bson b (PMessage pattern (prefix b @ EventType event) payload # ns) =
           (case busFactories b (EventType event) of
              None \<Rightarrow>
                (Log ''error: event bus receive: '' ErrEventNotRegistered #
                   fst (receiveGlobal bson b ns), snd (receiveGlobal bson b ns))
            | Some f \<Rightarrow>
                (case Unmarshal bson \<lparr>Kind = 3, Data = payload\<rparr> f of
                   Inl err \<Rightarrow>
                     (Log ''error: event bus receive: '' ErrCouldNotUnmarshalEvent #
                        fst (receiveGlobal bson b ns), snd (receiveGlobal bson b ns))
                 | Inr received \<Rightarrow>
                     (map (\<lambda>handler. HandleEvent handler received) (globalHandlers b) @
                        fst (receiveGlobal bson b ns), snd (receiveGlobal bson b ns))))"
    by (simp add: t Let_def split: prod.splits option.splits sum.splits)
  ultimately show ?thesis using p t by simp
qed

theorem channel_round_trip_witness:
  "NewRedisEventBusWithPool ''bank'' [ConnFailed (External ''refused''), Subscribed] =
     Some (Inr \<lparr>eventHandlers = Map.empty, localHandlers = [], globalHandlers = [],
                prefix = ''bank:events:'', busFactories = Map.empty :: string \<rightharpoonup> int iface\<rparr>) \<and>
   prefix example_bus = ''bank:events:'' \<and>
   Do ''PUBLISH'' ''bank:events:Deposited'' [10]
     \<in> set (publishGlobal example_codec example_bus \<lparr>conn_err = None, do_err = None\<rparr> (deposited 10)) \<and>
   TrimPrefix ''bank:events:Deposited'' (prefix example_bus) = ''Deposited''"
  using channel_round_trip [where appID = "''bank''"
      and rounds = "[ConnFailed (External ''refused''), Subscribed]"
      and ?b0.0 = "\<lparr>eventHandlers = Map.empty, localHandlers = [], globalHandlers = [],
        prefix = ''bank:events:'', busFactories = Map.empty :: string \<rightharpoonup> int iface\<rparr>"
      and b = example_bus and event = "deposited 10" and bson = example_codec
      and env = "\<lparr>conn_err = None, do_err = None\<rparr>"]
  by (simp add: NewRedisEventBusWithPool_def example_bus_def example_codec_def deposited_def
      bson_Marshal_def)

subsection \<open>The receive loop\<close>

text \<open>
  C8: a message whose type has no factory, or whose payload cannot be unmarshalled, adds one
  line to the log and nothing else, and the loop goes on with the values that follow. The
  loop returns only at the first value that is an unsubscription leaving no subscription
  (it then sends true on \<^verbatim>\<open>done\<close>) or an error (it sends false); without such a value it is
  still receiving.
\<close>

theorem receiveGlobal_skips_and_exits:
  "(busFactories b (TrimPrefix channel (prefix b)) = None \<longrightarrow>
      receiveGlobal bson b (PMessage pattern channel payload # ns) =
        (Log ''error: event bus receive: '' ErrEventNotRegistered # fst (receiveGlobal bson b ns),
         snd (receiveGlobal bson b ns))) \<and>
   (\<forall>f err. busFactories b (TrimPrefix channel (prefix b)) = Some f \<and>
        Unmarshal bson \<lparr>Kind = 3, Data = payload\<rparr> f = Inl err \<longrightarrow>
      receiveGlobal bson b (PMessage pattern channel payload # ns) =
        (Log ''error: event bus receive: '' ErrCouldNotUnmarshalEvent # fst (receiveGlobal bson b ns),
         snd (receiveGlobal bson b ns))) \<and>
   snd (receiveGlobal bson b ms) =
     (case find exits ms of
        None \<Rightarrow> None
      | Some (RecvError err) \<Rightarrow> Some False
      | Some n \<Rightarrow> Some True)"
proof (intro conjI)
  show "snd (receiveGlobal bson b ms) =
     (case find exits ms of
        None \<Rightarrow> None
      | Some (RecvError err) \<Rightarrow> Some False
      | Some n \<Rightarrow> Some True)"
    by (induction bson b ms rule: receiveGlobal.induct)
       (auto simp: exits_def Let_def split: prod.splits option.splits sum.splits)
qed (auto simp: Let_def split: prod.splits)

theorem receiveGlobal_skips_and_exits_witness:
  "busFactories example_bus (TrimPrefix ''bank:events:Withdrawn'' (prefix example_bus)) = None \<and>
   busFactories example_bus (TrimPrefix ''bank:events:Deposited'' (prefix example_bus)) =
     Some (Some \<lparr>AggregateID = [], EventType = ''Deposited'', Payload = 0\<rparr>) \<and>
   Unmarshal example_codec \<lparr>Kind = 3, Data = []\<rparr>
       (Some \<lparr>AggregateID = [], EventType = ''Deposited'', Payload = 0\<rparr>) =
     Inl (External ''cannot unmarshal'') \<and>
   receiveGlobal example_codec example_bus
     [PMessage ''bank:events:*'' ''bank:events:Withdrawn'' [7],
      PMessage ''bank:events:*'' ''bank:events:Deposited'' [],
      PMessage ''bank:events:*'' ''bank:events:Deposited'' [7],
      Subscription ''punsubscribe'' ''bank:events:*'' 0,
      PMessage ''bank:events:*'' ''bank:events:Deposited'' [8]] =
   ([Log ''error: event bus receive: '' ErrEventNotRegistered,
     Log ''error: event bus receive: '' ErrCouldNotUnmarshalEvent,
     HandleEvent 4 (Some (deposited 7)), HandleEvent 5 (Some (deposited 7))], Some True)"
  using receiveGlobal_skips_and_exits [of example_bus "''bank:events:Withdrawn''" example_codec
      "''bank:events:*''" "[7]"
      "[PMessage ''bank:events:*'' ''bank:events:Deposited'' [],
        PMessage ''bank:events:*'' ''bank:events:Deposited'' [7],
        Subscription ''punsubscribe'' ''bank:events:*'' 0,
        PMessage ''bank:events:*'' ''bank:events:Deposited'' [8]]" "[]"]
    receiveGlobal_skips_and_exits [of example_bus "''bank:events:Deposited''" example_codec
      "''bank:events:*''" "[]"
      "[PMessage ''bank:events:*'' ''bank:events:Deposited'' [7],
        Subscription ''punsubscribe'' ''bank:events:*'' 0,
        PMessage ''bank:events:*'' ''bank:events:Deposited'' [8]]" "[]"]
  by (simp add: example_bus_def example_codec_def deposited_def TrimPrefix_def HasPrefix_def)

subsection \<open>One step of \<open>Save\<close>\<close>

lemmas example_defs =
  Save_def save_event_def All_docs_def Limit_def Select_version_def FindId_def bson_Marshal_def
  Insert_def Update_def example_codec_def example_store_def other_stream_def account_stream_def
  quiet_def flaky_def deposited_def stored_def go_int_def

lemma FindId_first:
  "\<forall>u \<in> set us. ID u \<noteq> aid \<Longrightarrow> ID a = aid \<Longrightarrow> FindId (us @ a # vs) aid = a # FindId vs aid"
  by (simp add: FindId_def)

lemma save_event_new:
  assumes "aid \<notin> ID ` set c" and "AggregateID event = aid"
  shows "save_event bson env c event =
     (case probe_err env of
        Some x \<Rightarrow> Inl ErrCouldNotLoadAggregate
      | None \<Rightarrow>
          (case Marshal bson event of
             Inl x \<Rightarrow> Inl ErrCouldNotMarshalEvent
           | Inr payload \<Rightarrow>
               (case write_err env of
                  Some x \<Rightarrow> Inl ErrCouldNotSaveAggregate
                | None \<Rightarrow>
                    Inr (c @ [\<lparr>ID = aid, Version = 1,
                                Events = [stored event (now env) payload 1]\<rparr>]))))"
proof -
  from assms have "FindId c (AggregateID event) = []" by (simp add: FindId_Nil)
  with assms show ?thesis
    by (simp add: save_event_def bson_Marshal_def All_docs_def Limit_def Select_version_def
        Insert_def stored_def Let_def image_iff split: option.splits sum.splits)
qed

lemma save_event_existing:
  assumes "\<forall>u \<in> set us. ID u \<noteq> aid" and "ID a = aid" and "AggregateID event = aid"
  shows "save_event bson env (us @ a # vs) event =
     (case probe_err env of
        Some x \<Rightarrow> Inl ErrCouldNotLoadAggregate
      | None \<Rightarrow>
          (case Marshal bson event of
             Inl x \<Rightarrow> Inl ErrCouldNotMarshalEvent
           | Inr payload \<Rightarrow>
               (case write_err env of
                  Some x \<Rightarrow> Inl ErrCouldNotSaveAggregate
                | None \<Rightarrow>
                    Inr (us @ a\<lparr>Events := Events a @
                                   [stored event (now env) payload (go_int (Version a + 1))],
                                 Version := Version a + 1\<rparr> # vs))))"
proof -
  have f: "FindId (us @ a # vs) aid = a # FindId vs aid"
    using assms by (simp add: FindId_first)
  have u: "update_one (\<lambda>d. ID d = aid \<and> Version d = Version a) g (us @ a # vs) =
      Some (us @ g a # vs)" for g
    using assms by (intro update_one_first) auto
  show ?thesis
    using assms(3)
    by (simp add: save_event_def f u bson_Marshal_def All_docs_def Limit_def Select_version_def
        Update_def stored_def Let_def split: option.splits sum.splits)
qed


lemma save_event_Inr:
  assumes "save_event bson env c event = Inr c'"
  shows "\<exists>payload. Marshal bson event = Inr payload \<and>
     (AggregateID event \<notin> ID ` set c \<and>
        c' = c @ [\<lparr>ID = AggregateID event, Version = 1,
                    Events = [stored event (now env) payload 1]\<rparr>] \<or>
      (\<exists>us a vs. c = us @ a # vs \<and> (\<forall>u \<in> set us. ID u \<noteq> AggregateID event) \<and>
         ID a = AggregateID event \<and>
         c' = us @ a\<lparr>Events := Events a @
                        [stored event (now env) payload (go_int (Version a + 1))],
                      Version := Version a + 1\<rparr> # vs))"
proof (cases "FindId c (AggregateID event)")
  case Nil
  then have n: "AggregateID event \<notin> ID ` set c" by (simp add: FindId_Nil)
  from assms show ?thesis
    unfolding save_event_new [OF n refl]
    using n by (auto split: option.splits sum.splits)
next
  case (Cons a q)
  from FindId_Cons [OF this] obtain us vs where
    c: "c = us @ a # vs" and us: "\<forall>u \<in> set us. ID u \<noteq> AggregateID event"
    and a: "ID a = AggregateID event" by blast
  from assms show ?thesis
    unfolding c save_event_existing [OF us a refl]
    using us a by (auto split: option.splits sum.splits)
qed

lemma stream_ok_push:
  assumes "stream_ok a" and "int (length (Events a)) + 1 < 2 ^ 63"
      and "RecordVersion r = go_int (Version a + 1)"
  shows "stream_ok (a\<lparr>Events := Events a @ [r], Version := Version a + 1\<rparr>)"
proof -
  from assms(1) have v: "Version a = int (length (Events a))"
    and m: "map RecordVersion (Events a) = map int [1..<Suc (length (Events a))]"
    by (simp_all add: stream_ok_def)
  have "go_int (Version a + 1) = Version a + 1"
    using assms(2) v by (intro go_int_id) simp_all
  with assms(3) v m show ?thesis
    by (simp add: stream_ok_def)
qed

lemma save_event_keeps_streams:
  assumes "save_event bson env c event = Inr c'"
      and "\<forall>a \<in> set c. stream_ok a" and "room c (Suc n)"
  shows "(\<forall>a \<in> set c'. stream_ok a) \<and> room c' n \<and>
         (\<forall>a \<in> set c. \<exists>a' \<in> set c'. ID a' = ID a \<and> (\<exists>recs. Events a' = Events a @ recs))"
proof -
  from save_event_Inr [OF assms(1)] obtain payload where
    alt: "AggregateID event \<notin> ID ` set c \<and>
        c' = c @ [\<lparr>ID = AggregateID event, Version = 1,
                    Events = [stored event (now env) payload 1]\<rparr>] \<or>
      (\<exists>us a vs. c = us @ a # vs \<and> (\<forall>u \<in> set us. ID u \<noteq> AggregateID event) \<and>
         ID a = AggregateID event \<and>
         c' = us @ a\<lparr>Events := Events a @
                        [stored event (now env) payload (go_int (Version a + 1))],
                      Version := Version a + 1\<rparr> # vs)"
    by blast
  from alt show ?thesis
  proof
    assume "AggregateID event \<notin> ID ` set c \<and>
        c' = c @ [\<lparr>ID = AggregateID event, Version = 1,
                    Events = [stored event (now env) payload 1]\<rparr>]"
    then have c': "c' = c @ [\<lparr>ID = AggregateID event, Version = 1,
                    Events = [stored event (now env) payload 1]\<rparr>]" by simp
    from c' assms(2) have "\<forall>a \<in> set c'. stream_ok a"
      by (auto simp: stream_ok_def stored_def)
    moreover from c' assms(3) have "room c' n"
      by (auto simp: room_def)
    moreover from c' have
      "\<forall>a \<in> set c. \<exists>a' \<in> set c'. ID a' = ID a \<and> (\<exists>recs. Events a' = Events a @ recs)"
      by auto
    ultimately show ?thesis by simp
  next
    assume "\<exists>us a vs. c = us @ a # vs \<and> (\<forall>u \<in> set us. ID u \<noteq> AggregateID event) \<and>
         ID a = AggregateID event \<and>
         c' = us @ a\<lparr>Events := Events a @
                        [stored event (now env) payload (go_int (Version a + 1))],
                      Version := Version a + 1\<rparr> # vs"
    then obtain us a vs where c: "c = us @ a # vs"
      and c': "c' = us @ a\<lparr>Events := Events a @
                        [stored event (now env) payload (go_int (Version a + 1))],
                      Version := Version a + 1\<rparr> # vs"
      by blast
    let ?a' = "a\<lparr>Events := Events a @ [stored event (now env) payload (go_int (Version a + 1))],
                  Version := Version a + 1\<rparr>"
    from c assms(2) have "stream_ok a" by simp
    moreover from c assms(3) have "int (length (Events a)) + 1 < 2 ^ 63"
      by (simp add: room_def)
    ultimately have "stream_ok ?a'"
      by (intro stream_ok_push) (simp_all add: stored_def)
    with c c' assms(2) have "\<forall>a \<in> set c'. stream_ok a"
      by auto
    moreover have "room c' n"
      unfolding room_def
    proof (intro conjI ballI)
      show "int n < 2 ^ 63" using assms(3) by (simp add: room_def)
    next
      fix x assume "x \<in> set c'"
      with c c' consider "x \<in> set c"
        | "length (Events x) = Suc (length (Events a))" by auto
      then show "int (length (Events x)) + int n < 2 ^ 63"
      proof cases
        case 1
        with assms(3) have "int (length (Events x)) + int (Suc n) < 2 ^ 63"
          by (simp add: room_def)
        then show ?thesis by simp
      next
        case 2
        from c assms(3) have "int (length (Events a)) + int (Suc n) < 2 ^ 63"
          by (simp add: room_def)
        with 2 show ?thesis by simp
      qed
    qed
    moreover have
      "\<forall>x \<in> set c. \<exists>a' \<in> set c'. ID a' = ID x \<and> (\<exists>recs. Events a' = Events x @ recs)"
    proof
      fix x assume "x \<in> set c"
      with c consider "x \<in> set us \<union> set vs" | "x = a" by auto
      then show "\<exists>a' \<in> set c'. ID a' = ID x \<and> (\<exists>recs. Events a' = Events x @ recs)"
      proof cases
        case 1
        with c' have "x \<in> set c'" by auto
        then show ?thesis by (intro bexI [of _ x]) simp_all
      next
        case 2
        have "?a' \<in> set c'" using c' by simp
        then show ?thesis using 2 by (intro bexI [of _ ?a']) simp_all
      qed
    qed
    ultimately show ?thesis by simp
  qed
qed

lemma save_events_keep_streams:
  assumes "save_events bson s env k c events = (res, c', published)"
      and "\<forall>a \<in> set c. stream_ok a" and "room c (length events)"
  shows "(\<forall>a \<in> set c'. stream_ok a) \<and>
         (\<forall>a \<in> set c. \<exists>a' \<in> set c'. ID a' = ID a \<and> (\<exists>recs. Events a' = Events a @ recs))"
  using assms
proof (induction events arbitrary: k c res published c')
  case Nil
  then show ?case by auto
next
  case (Cons event rest)
  show ?case
  proof (cases "save_event bson (env k) c event")
    case (Inl err)
    with Cons.prems show ?thesis by auto
  next
    case (Inr c1)
    from Cons.prems(3) have "room c (Suc (length rest))" by simp
    from save_event_keeps_streams [OF Inr Cons.prems(2) this]
    have ok: "\<forall>a \<in> set c1. stream_ok a" and r: "room c1 (length rest)"
      and g: "\<forall>a \<in> set c. \<exists>a' \<in> set c1. ID a' = ID a \<and> (\<exists>recs. Events a' = Events a @ recs)"
      by simp_all
    obtain res1 c2 pub1 where rec: "save_events bson s env (Suc k) c1 rest = (res1, c2, pub1)"
      by (cases "save_events bson s env (Suc k) c1 rest") auto
    with Cons.prems(1) Inr have c2: "c' = c2" by simp
    from Cons.IH [OF rec ok r] have ok2: "\<forall>a \<in> set c2. stream_ok a"
      and g2: "\<forall>a \<in> set c1. \<exists>a' \<in> set c2. ID a' = ID a \<and> (\<exists>recs. Events a' = Events a @ recs)"
      by simp_all
    have "\<forall>a \<in> set c. \<exists>a' \<in> set c2. ID a' = ID a \<and> (\<exists>recs. Events a' = Events a @ recs)"
    proof
      fix a assume "a \<in> set c"
      with g obtain a1 recs1 where a1: "a1 \<in> set c1" "ID a1 = ID a" "Events a1 = Events a @ recs1"
        by blast
      with g2 obtain a2 recs2 where "a2 \<in> set c2" "ID a2 = ID a1" "Events a2 = Events a1 @ recs2"
        by blast
      with a1 show "\<exists>a' \<in> set c2. ID a' = ID a \<and> (\<exists>recs. Events a' = Events a @ recs)"
        by (intro bexI [of _ a2]) simp_all
    qed
    with ok2 c2 show ?thesis by simp
  qed
qed

lemma save_events_append:
  "save_events bson s env k c (pre @ rest) =
     (case save_events bson s env k c pre of
        (None, c1, pub1) \<Rightarrow>
          (case save_events bson s env (k + length pre) c1 rest of
             (res, c2, pub2) \<Rightarrow> (res, c2, pub1 @ pub2))
      | (Some err, c1, pub1) \<Rightarrow> (Some err, c1, pub1))"
  by (induction pre arbitrary: k c) (auto split: sum.splits prod.splits option.splits)

lemma save_events_published:
  "save_events bson s env k c events = (None, c', published) \<Longrightarrow>
     published = (if eventBus s \<noteq> None then events else [])"
  by (induction events arbitrary: k c published)
     (auto split: sum.splits prod.splits option.splits if_splits)

lemma save_event_fails:
  assumes "save_event bson env c event = Inl err"
  shows "err = ErrCouldNotLoadAggregate \<and> probe_err env \<noteq> None \<or>
         err = ErrCouldNotMarshalEvent \<and> probe_err env = None \<and>
           (\<exists>x. Marshal bson event = Inl x) \<or>
         err = ErrCouldNotSaveAggregate \<and> probe_err env = None \<and>
           (\<exists>payload. Marshal bson event = Inr payload) \<and> write_err env \<noteq> None"
proof (cases "FindId c (AggregateID event)")
  case Nil
  then have n: "AggregateID event \<notin> ID ` set c" by (simp add: FindId_Nil)
  from assms show ?thesis
    unfolding save_event_new [OF n refl]
    by (auto split: option.splits sum.splits)
next
  case (Cons a q)
  from FindId_Cons [OF this] obtain us vs where
    c: "c = us @ a # vs" and us: "\<forall>u \<in> set us. ID u \<noteq> AggregateID event"
    and a: "ID a = AggregateID event" by blast
  from assms show ?thesis
    unfolding c save_event_existing [OF us a refl]
    by (auto split: option.splits sum.splits)
qed

lemma save_events_one_stream:
  assumes "save_events bson s env k (c0 @ [a]) events = (None, c', published)"
      and "\<forall>u \<in> set c0. ID u \<noteq> aid" and "ID a = aid"
      and "\<forall>e \<in> set events. AggregateID e = aid"
      and "stream_ok a" and "int (length (Events a)) + int (length events) < 2 ^ 63"
  shows "\<exists>recs. c' = c0 @ [a\<lparr>Events := Events a @ recs,
                              Version := Version a + int (length events)\<rparr>] \<and>
           list_all2 (record_of bson) recs events \<and>
           stream_ok (a\<lparr>Events := Events a @ recs, Version := Version a + int (length events)\<rparr>)"
  using assms
proof (induction events arbitrary: k a published)
  case Nil
  then show ?case by simp
next
  case (Cons event rest)
  from Cons.prems(4) have ev: "AggregateID event = aid" by simp
  note step = save_event_existing [OF Cons.prems(2,3) ev, of bson "env k" "[]"]
  from Cons.prems(1) obtain c1 where c1: "save_event bson (env k) (c0 @ [a]) event = Inr c1"
    by (cases "save_event bson (env k) (c0 @ [a]) event") auto
  with step obtain payload where m: "Marshal bson event = Inr payload"
    and c1': "c1 = c0 @ [a\<lparr>Events := Events a @
                              [stored event (now (env k)) payload (go_int (Version a + 1))],
                            Version := Version a + 1\<rparr>]"
    by (auto split: option.splits sum.splits)
  let ?r = "stored event (now (env k)) payload (go_int (Version a + 1))"
  let ?a1 = "a\<lparr>Events := Events a @ [?r], Version := Version a + 1\<rparr>"
  from Cons.prems(1) c1 obtain pub1 where
    rec: "save_events bson s env (Suc k) (c0 @ [?a1]) rest = (None, c', pub1)"
    unfolding c1' [symmetric] by (auto split: prod.splits)
  have ok1: "stream_ok ?a1"
    using Cons.prems(5,6) by (intro stream_ok_push) (simp_all add: stored_def)
  have id1: "ID ?a1 = aid" using Cons.prems(3) by simp
  have rest: "\<forall>e \<in> set rest. AggregateID e = aid" using Cons.prems(4) by simp
  have bound: "int (length (Events ?a1)) + int (length rest) < 2 ^ 63"
    using Cons.prems(6) by simp
  from Cons.IH [OF rec Cons.prems(2) id1 rest ok1 bound] obtain recs where
    c': "c' = c0 @ [?a1\<lparr>Events := Events ?a1 @ recs,
                         Version := Version ?a1 + int (length rest)\<rparr>]"
    and l: "list_all2 (record_of bson) recs rest"
    and ok: "stream_ok (?a1\<lparr>Events := Events ?a1 @ recs,
                            Version := Version ?a1 + int (length rest)\<rparr>)"
    by blast
  have eq: "?a1\<lparr>Events := Events ?a1 @ recs, Version := Version ?a1 + int (length rest)\<rparr> =
            a\<lparr>Events := Events a @ (?r # recs),
              Version := Version a + int (length (event # rest))\<rparr>"
    by simp
  have "record_of bson ?r event"
    using m by (simp add: record_of_def stored_def)
  with l have "list_all2 (record_of bson) (?r # recs) (event # rest)" by simp
  with c' ok show ?case unfolding eq by blast
qed

lemma load_events_decodes_back:
  assumes "list_all2 (record_of bson) recs events"
      and "\<forall>e \<in> set events. decodes_back bson s e"
  shows "load_events bson s recs = Inr events"
  using assms
proof (induction recs events rule: list_all2_induct)
  case Nil
  then show ?case by simp
next
  case (Cons r recs event events)
  from Cons.hyps(1) have t: "Type r = EventType event"
    and d: "Marshal bson event = Inr (Data (RecordData r))"
    and raw: "RecordData r = \<lparr>Kind = 3, Data = Data (RecordData r)\<rparr>"
    by (simp_all add: record_of_def)
  from Cons.prems have "decodes_back bson s event" by simp
  with d obtain f where "factories s (EventType event) = Some f"
    and "Unmarshal bson \<lparr>Kind = 3, Data = Data (RecordData r)\<rparr> f = Inr (Some event)"
    by (auto simp: decodes_back_def split: option.splits)
  moreover from Cons have "load_events bson s recs = Inr events" by simp
  ultimately show ?case using t raw by simp
qed


subsection \<open>Saving and loading\<close>

text \<open>
  C1, as amended: a batch of events of one entity id that has no stream yet is saved with
  success. If every event of the batch has a factory registered in the store for its type,
  and unmarshalling its stored payload into the factory's value gives the event, then
  \<open>Load\<close> of that id, its query answered, returns exactly the batch, in order; the stream
  holds one record per event, in order, with the versions 1 to N, and its version is N.
\<close>

theorem Save_then_Load:
  assumes "Save bson s env c events = (None, c', published)"
      and "\<forall>e \<in> set events. AggregateID e = aid"
      and "aid \<notin> ID ` set c"
      and "int (length events) < 2 ^ 63"
      and "\<forall>e \<in> set events. decodes_back bson s e"
  shows "Load bson s None c' aid = Inr events \<and>
         (\<exists>a. FindId c' aid = [a] \<and> Version a = int (length events) \<and>
              map RecordVersion (Events a) = map int [1..<Suc (length events)] \<and>
              list_all2 (record_of bson) (Events a) events)"
proof (cases events)
  case Nil
  with assms(1) show ?thesis by (simp add: Save_def)
next
  case (Cons event rest)
  with assms(1) have loop: "save_events bson s env 0 c (event # rest) = (None, c', published)"
    by (simp add: Save_def)
  from assms(2) Cons have ev: "AggregateID event = aid"
    and rest: "\<forall>e \<in> set rest. AggregateID e = aid" by simp_all
  note step = save_event_new [OF assms(3) ev, of bson "env 0"]
  from loop obtain c1 where c1: "save_event bson (env 0) c event = Inr c1"
    by (cases "save_event bson (env 0) c event") auto
  with step obtain payload where m: "Marshal bson event = Inr payload"
    and c1': "c1 = c @ [\<lparr>ID = aid, Version = 1,
                          Events = [stored event (now (env 0)) payload 1]\<rparr>]"
    by (auto split: option.splits sum.splits)
  let ?r = "stored event (now (env 0)) payload 1"
  let ?a1 = "\<lparr>ID = aid, Version = 1, Events = [?r]\<rparr>"
  from loop c1 obtain pub1 where
    rec: "save_events bson s env (Suc 0) (c @ [?a1]) rest = (None, c', pub1)"
    unfolding c1' [symmetric] by (auto split: prod.splits)
  have fresh: "\<forall>u \<in> set c. ID u \<noteq> aid" using assms(3) by auto
  have ok1: "stream_ok ?a1" by (simp add: stream_ok_def stored_def)
  have bound: "int (length (Events ?a1)) + int (length rest) < 2 ^ 63"
    using assms(4) Cons by simp
  from save_events_one_stream [OF rec fresh _ rest ok1 bound] obtain recs where
    c': "c' = c @ [?a1\<lparr>Events := Events ?a1 @ recs,
                        Version := Version ?a1 + int (length rest)\<rparr>]"
    and l: "list_all2 (record_of bson) recs rest"
    and ok: "stream_ok (?a1\<lparr>Events := Events ?a1 @ recs,
                            Version := Version ?a1 + int (length rest)\<rparr>)"
    by auto
  let ?a = "\<lparr>ID = aid, Version = 1 + int (length rest), Events = ?r # recs\<rparr>"
  have a: "?a1\<lparr>Events := Events ?a1 @ recs, Version := Version ?a1 + int (length rest)\<rparr> = ?a"
    by simp
  have "record_of bson ?r event" using m by (simp add: record_of_def stored_def)
  with l have all: "list_all2 (record_of bson) (Events ?a) events"
    using Cons by simp
  then have len: "length (Events ?a) = length events" by (rule list_all2_lengthD)
  have find: "FindId c' aid = [?a]"
    unfolding c' a using FindId_first [OF fresh, of ?a "[]"] by (simp add: FindId_def)
  from all assms(5) have "load_events bson s (Events ?a) = Inr events"
    by (rule load_events_decodes_back)
  with find have "Load bson s None c' aid = Inr events"
    by (simp add: Load_def All_docs_def Limit_def)
  moreover from ok have "Version ?a = int (length events) \<and>
      map RecordVersion (Events ?a) = map int [1..<Suc (length events)]"
    unfolding a stream_ok_def len by simp
  ultimately show ?thesis using find all by blast
qed

theorem Save_then_Load_witness:
  "Save example_codec example_store quiet [other_stream] [deposited 10, deposited 5] =
     (None, [other_stream, account_stream], [deposited 10, deposited 5]) \<and>
   AggregateID (deposited 10) = ''A1'' \<and> AggregateID (deposited 5) = ''A1'' \<and>
   ''A1'' \<notin> ID ` set [other_stream] \<and>
   int (length [deposited 10, deposited 5]) < 2 ^ 63 \<and>
   decodes_back example_codec example_store (deposited 10) \<and>
   decodes_back example_codec example_store (deposited 5) \<and>
   Load example_codec example_store None [other_stream, account_stream] ''A1'' =
     Inr [deposited 10, deposited 5] \<and>
   (\<exists>a. FindId [other_stream, account_stream] ''A1'' = [a] \<and> Version a = 2 \<and>
        map RecordVersion (Events a) = [1, 2])"
proof -
  have h1: "Save example_codec example_store quiet [other_stream] [deposited 10, deposited 5] =
     (None, [other_stream, account_stream], [deposited 10, deposited 5])"
    by (simp add: example_defs)
  have h2: "\<forall>e \<in> set [deposited 10, deposited 5]. AggregateID e = ''A1''"
    by (simp add: deposited_def)
  have h3: "''A1'' \<notin> ID ` set [other_stream]"
    by (simp add: other_stream_def)
  have h4: "int (length [deposited 10, deposited 5]) < 2 ^ 63"
    by simp
  have h5: "\<forall>e \<in> set [deposited 10, deposited 5]. decodes_back example_codec example_store e"
    by (simp add: decodes_back_def example_codec_def example_store_def deposited_def)
  have n: "[1..<Suc (length [deposited 10, deposited 5])] = [1, 2]"
    by (simp add: upt_rec)
  from Save_then_Load [OF h1 h2 h3 h4 h5]
  have r: "Load example_codec example_store None [other_stream, account_stream] ''A1'' =
       Inr [deposited 10, deposited 5]"
    and v: "\<exists>a. FindId [other_stream, account_stream] ''A1'' = [a] \<and> Version a = 2 \<and>
        map RecordVersion (Events a) = [1, 2]"
    unfolding n by auto
  from h2 h5 have "AggregateID (deposited 10) = ''A1''" "AggregateID (deposited 5) = ''A1''"
    "decodes_back example_codec example_store (deposited 10)"
    "decodes_back example_codec example_store (deposited 5)"
    by simp_all
  then show ?thesis by (intro conjI h1 h3 h4 r v)
qed

text \<open>
  C1, as stated, fails when the type of an event has no factory in the store: \<open>Save\<close> does
  not consult the factories and succeeds, and \<open>Load\<close> returns \<open>ErrEventNotRegistered\<close>.
\<close>

theorem Save_then_Load_counterexample:
  "[deposited 10] \<noteq> [] \<and>
   ''A1'' \<notin> ID ` set [other_stream] \<and>
   AggregateID (deposited 10) = ''A1'' \<and>
   Save example_codec bare_store quiet [other_stream] [deposited 10] =
     (None, [other_stream, \<lparr>ID = ''A1'', Version = 1,
                            Events = [stored (deposited 10) 100 [10] 1]\<rparr>], []) \<and>
   Load example_codec bare_store None
     [other_stream, \<lparr>ID = ''A1'', Version = 1, Events = [stored (deposited 10) 100 [10] 1]\<rparr>]
     ''A1'' = Inl ErrEventNotRegistered"
  by (simp add: example_defs bare_store_def Load_def)

text \<open>
  C2: when every stream satisfies the invariant (the version is the number of records, the
  records carry the versions 1, 2, ... in sequence order), so does every stream after a
  successful \<open>Save\<close>; and each stream is still there with its records in their places, the
  new ones after them. No stream may reach \<open>2 ^ 63\<close> records.
\<close>

theorem Save_keeps_stream_invariant:
  assumes "Save bson s env c events = (None, c', published)"
      and "\<forall>a \<in> set c. stream_ok a" and "room c (length events)"
  shows "(\<forall>a \<in> set c'. stream_ok a) \<and>
         (\<forall>a \<in> set c. \<exists>a' \<in> set c'. ID a' = ID a \<and> (\<exists>recs. Events a' = Events a @ recs))"
proof -
  from assms(1) have "save_events bson s env 0 c events = (None, c', published)"
    by (simp add: Save_def split: if_splits)
  from save_events_keep_streams [OF this assms(2,3)] show ?thesis .
qed

theorem Save_keeps_stream_invariant_witness:
  "Save example_codec example_store quiet [other_stream] [deposited 10, deposited 5] =
     (None, [other_stream, account_stream], [deposited 10, deposited 5]) \<and>
   stream_ok other_stream \<and>
   room [other_stream] (length [deposited 10, deposited 5]) \<and>
   stream_ok other_stream \<and> stream_ok account_stream"
  using Save_keeps_stream_invariant [of example_codec example_store quiet "[other_stream]"
      "[deposited 10, deposited 5]" "[other_stream, account_stream]" "[deposited 10, deposited 5]"]
  by (simp add: example_defs stream_ok_def room_def)

text \<open>
  C3: when the loop has processed the events before the k-th with success and the k-th
  fails, \<open>Save\<close> returns the error of the k-th whatever events follow it, the collection is
  the one left by the events before (nothing is rolled back), and exactly these events
  have been handed to the bus, if there is one. The k-th event fails in its probe, in its
  encoding, or in its write (the insert or the conditional append), with the error of that
  step.
\<close>

theorem Save_partial_commit:
  assumes "save_events bson s env 0 c pre = (None, c1, published)"
      and "save_event bson (env (length pre)) c1 event = Inl err"
  shows "Save bson s env c (pre @ event # post) = (Some err, c1, published) \<and>
         published = (if eventBus s \<noteq> None then pre else []) \<and>
         (err = ErrCouldNotLoadAggregate \<and> probe_err (env (length pre)) \<noteq> None \<or>
          err = ErrCouldNotMarshalEvent \<and> (\<exists>x. Marshal bson event = Inl x) \<or>
          err = ErrCouldNotSaveAggregate \<and> write_err (env (length pre)) \<noteq> None)"
proof -
  have "save_events bson s env 0 c (pre @ event # post) = (Some err, c1, published)"
    using assms by (simp add: save_events_append)
  then have "Save bson s env c (pre @ event # post) = (Some err, c1, published)"
    by (simp add: Save_def)
  moreover note save_events_published [OF assms(1)]
  moreover from save_event_fails [OF assms(2)]
  have "err = ErrCouldNotLoadAggregate \<and> probe_err (env (length pre)) \<noteq> None \<or>
          err = ErrCouldNotMarshalEvent \<and> (\<exists>x. Marshal bson event = Inl x) \<or>
          err = ErrCouldNotSaveAggregate \<and> write_err (env (length pre)) \<noteq> None"
    by blast
  ultimately show ?thesis by simp
qed

theorem Save_partial_commit_witness:
  "save_events example_codec example_store flaky 0 [other_stream] [deposited 10] =
     (None, [other_stream, \<lparr>ID = ''A1'', Version = 1,
                            Events = [stored (deposited 10) 100 [10] 1]\<rparr>], [deposited 10]) \<and>
   save_event example_codec (flaky (length [deposited 10]))
     [other_stream, \<lparr>ID = ''A1'', Version = 1, Events = [stored (deposited 10) 100 [10] 1]\<rparr>]
     (deposited 5) = Inl ErrCouldNotLoadAggregate \<and>
   Save example_codec example_store flaky [other_stream]
     ([deposited 10] @ deposited 5 # [deposited 7]) =
     (Some ErrCouldNotLoadAggregate,
      [other_stream, \<lparr>ID = ''A1'', Version = 1, Events = [stored (deposited 10) 100 [10] 1]\<rparr>],
      [deposited 10])"
  using Save_partial_commit [where bson = example_codec and s = example_store and env = flaky
      and c = "[other_stream]" and pre = "[deposited 10]"
      and ?c1.0 = "[other_stream,
        \<lparr>ID = ''A1'', Version = 1, Events = [stored (deposited 10) 100 [10] 1]\<rparr>]"
      and published = "[deposited 10]" and event = "deposited 5"
      and err = ErrCouldNotLoadAggregate and post = "[deposited 7]"]
  by (simp add: example_defs)

end
